theory Spec2Isabelle
  imports Main "HOL-Library.Sublist"
begin

section \<open>The value model\<close>

text \<open>
  The values \<^verbatim>\<open>json.load\<close> hands to \<^verbatim>\<open>json_to_toon\<close>: \<^verbatim>\<open>None\<close>, \<^verbatim>\<open>bool\<close>, \<^verbatim>\<open>int\<close>,
  \<^verbatim>\<open>float\<close>, \<^verbatim>\<open>str\<close>, \<^verbatim>\<open>list\<close> and \<^verbatim>\<open>dict\<close>. A \<^verbatim>\<open>dict\<close> is an association list in
  insertion order (its keys are distinct in every value Python can build). A \<^verbatim>\<open>str\<close> is
  a \<^typ>\<open>string\<close>, its characters being the code points below 256. Floating point is
  not modelled: the source only asks a \<^verbatim>\<open>float\<close> for its text \<^verbatim>\<open>str(value)\<close> and for
  its truth value, so a \<^verbatim>\<open>float\<close> is carried as that text.
\<close>

datatype json =
    JNull
  | JBool bool
  | JInt int
  | JFloat string
  | JStr string
  | JArr "json list"
  | JObj "(string \<times> json) list"

text \<open>
  The exceptions a call can raise. \<^verbatim>\<open>AttributeError\<close> is what \<^verbatim>\<open>.keys()\<close> and \<^verbatim>\<open>.get\<close>
  raise on a value that is no \<^verbatim>\<open>dict\<close>. \<open>Unmodelled\<close> stands for \<^verbatim>\<open>str(val)\<close> of a
  \<^verbatim>\<open>list\<close> or \<^verbatim>\<open>dict\<close> (Python's \<^verbatim>\<open>repr\<close>), which the model does not compute.
\<close>

datatype pyerr = AttributeError | Unmodelled

definition bind :: "pyerr + 'a \<Rightarrow> ('a \<Rightarrow> pyerr + 'b) \<Rightarrow> pyerr + 'b" where
  "bind m f = (case m of Inl e \<Rightarrow> Inl e | Inr x \<Rightarrow> f x)"

fun traverse :: "('a \<Rightarrow> pyerr + 'b) \<Rightarrow> 'a list \<Rightarrow> pyerr + 'b list" where
  "traverse f [] = Inr []"
| "traverse f (x # xs) = bind (f x) (\<lambda>y. bind (traverse f xs) (\<lambda>ys. Inr (y # ys)))"

section \<open>Python's string operations\<close>

definition nl :: char where
  "nl = CHR 0x0A"

definition dq :: char where
  "dq = CHR 0x22"

definition bs :: char where
  "bs = CHR 0x5C"

text \<open>
  \<^verbatim>\<open>str.isspace\<close> for one character, which is also what \<^verbatim>\<open>strip\<close> removes and what
  \<^verbatim>\<open>\s\<close> matches in a \<^verbatim>\<open>str\<close> pattern: below 256 these are the code points 9 to 13, 28 to
  32, 133 and 160.
\<close>

definition isspace :: "char \<Rightarrow> bool" where
  "isspace c = (c \<in> set [CHR 0x09, CHR 0x0A, CHR 0x0B, CHR 0x0C, CHR 0x0D,
     CHR 0x1C, CHR 0x1D, CHR 0x1E, CHR 0x1F, CHR 0x20, CHR 0x85, CHR 0xA0])"

definition lstrip :: "string \<Rightarrow> string" where
  "lstrip s = dropWhile isspace s"

definition rstrip :: "string \<Rightarrow> string" where
  "rstrip s = rev (dropWhile isspace (rev s))"

definition strip :: "string \<Rightarrow> string" where
  "strip s = rstrip (lstrip s)"

text \<open>\<^verbatim>\<open>s.strip(chars)\<close>.\<close>

definition strip_chars :: "string \<Rightarrow> string \<Rightarrow> string" where
  "strip_chars chars s =
     rev (dropWhile (\<lambda>c. c \<in> set chars) (rev (dropWhile (\<lambda>c. c \<in> set chars) s)))"

text \<open>\<^verbatim>\<open>sep.join(xs)\<close>.\<close>

fun join :: "string \<Rightarrow> string list \<Rightarrow> string" where
  "join sep [] = []"
| "join sep [x] = x"
| "join sep (x # y # ys) = x @ sep @ join sep (y # ys)"

text \<open>\<^verbatim>\<open>s.split(c)\<close> for a separator of one character: never an empty list.\<close>

fun split_on :: "char \<Rightarrow> string \<Rightarrow> string list" where
  "split_on c [] = [[]]"
| "split_on c (x # xs) =
     (if x = c then [] # split_on c xs
      else (case split_on c xs of [] \<Rightarrow> [[x]] | l # ls \<Rightarrow> (x # l) # ls))"

text \<open>
  \<^verbatim>\<open>s.split(sep)\<close> for a separator of any positive length: the occurrences of \<open>sep\<close> are
  taken from the left and do not overlap. \<open>acc\<close> holds the current part, reversed.
\<close>

fun split_acc :: "string \<Rightarrow> string \<Rightarrow> string \<Rightarrow> string list" where
  "split_acc sep acc [] = [rev acc]"
| "split_acc sep acc (c # cs) =
     (if sep \<noteq> [] \<and> prefix sep (c # cs)
      then rev acc # split_acc sep [] (drop (length sep - 1) cs)
      else split_acc sep (c # acc) cs)"

definition split_str :: "string \<Rightarrow> string \<Rightarrow> string list" where
  "split_str sep s = split_acc sep [] s"

text \<open>\<^verbatim>\<open>sub in s\<close> for strings.\<close>

fun contains :: "string \<Rightarrow> string \<Rightarrow> bool" where
  "contains sub [] = (sub = [])"
| "contains sub (c # cs) = (prefix sub (c # cs) \<or> contains sub cs)"

definition startswith :: "string \<Rightarrow> string \<Rightarrow> bool" where
  "startswith s p = prefix p s"

definition endswith :: "string \<Rightarrow> string \<Rightarrow> bool" where
  "endswith s p = suffix p s"

text \<open>\<^verbatim>\<open>str(n)\<close> for an \<^verbatim>\<open>int\<close>: decimal digits, a minus sign when negative.\<close>

definition digit_char :: "nat \<Rightarrow> char" where
  "digit_char d = char_of (48 + d)"

fun str_nat :: "nat \<Rightarrow> string" where
  "str_nat n = (if n < 10 then [digit_char n] else str_nat (n div 10) @ [digit_char (n mod 10)])"

definition str_int :: "int \<Rightarrow> string" where
  "str_int i = (if i < 0 then CHR ''-'' # str_nat (nat (- i)) else str_nat (nat i))"

text \<open>\<^verbatim>\<open>str(b)\<close> for a \<^verbatim>\<open>bool\<close>, and \<^verbatim>\<open>.lower()\<close> on the letters A to Z.\<close>

definition str_bool :: "bool \<Rightarrow> string" where
  "str_bool b = (if b then ''True'' else ''False'')"

definition lower_char :: "char \<Rightarrow> char" where
  "lower_char c = (if 65 \<le> (of_char c :: nat) \<and> (of_char c :: nat) \<le> 90
     then char_of ((of_char c :: nat) + 32) else c)"

definition lower :: "string \<Rightarrow> string" where
  "lower s = map lower_char s"

section \<open>The standard JSON encoder\<close>

text \<open>
  \<^verbatim>\<open>json.dumps\<close> with its defaults (\<^verbatim>\<open>ensure_ascii=True\<close>, separators \<^verbatim>\<open>', '\<close> and
  \<^verbatim>\<open>': '\<close>). A character of a string is written as it is when it lies between space and
  tilde and is neither the quote nor the backslash; the quote, the backslash and the
  control characters with a short name get a two-character escape; every other
  character is \<^verbatim>\<open>\u\<close> and four lower-case hexadecimal digits.
\<close>

definition hex_char :: "nat \<Rightarrow> char" where
  "hex_char d = (if d < 10 then char_of (48 + d) else char_of (87 + d))"

definition escape_char :: "char \<Rightarrow> string" where
  "escape_char c =
     (if c = dq then [bs, dq]
      else if c = bs then [bs, bs]
      else if c = nl then [bs, CHR ''n'']
      else if c = CHR 0x0D then [bs, CHR ''r'']
      else if c = CHR 0x09 then [bs, CHR ''t'']
      else if c = CHR 0x08 then [bs, CHR ''b'']
      else if c = CHR 0x0C then [bs, CHR ''f'']
      else if 32 \<le> (of_char c :: nat) \<and> (of_char c :: nat) \<le> 126 then [c]
      else [bs, CHR ''u'', CHR ''0'', CHR ''0'',
            hex_char ((of_char c :: nat) div 16), hex_char ((of_char c :: nat) mod 16)])"

definition dumps_str :: "string \<Rightarrow> string" where
  "dumps_str s = dq # concat (map escape_char s) @ [dq]"

fun json_dumps :: "json \<Rightarrow> string" where
  "json_dumps JNull = ''null''"
| "json_dumps (JBool b) = (if b then ''true'' else ''false'')"
| "json_dumps (JInt i) = str_int i"
| "json_dumps (JFloat f) =
     (if f = ''nan'' then ''NaN'' else if f = ''inf'' then ''Infinity''
      else if f = ''-inf'' then ''-Infinity'' else f)"
| "json_dumps (JStr s) = dumps_str s"
| "json_dumps (JArr xs) = ''['' @ join '', '' (map json_dumps xs) @ '']''"
| "json_dumps (JObj kvs) =
     ''{'' @ join '', '' (map (\<lambda>(k, v). dumps_str k @ '': '' @ json_dumps v) kvs) @ ''}''"

section \<open>The scalar formatter\<close>

text \<open>
  \<^verbatim>\<open>format_value\<close>. The tests are in the source's order: \<^verbatim>\<open>None\<close>, \<^verbatim>\<open>bool\<close>, \<^verbatim>\<open>str\<close>,
  \<^verbatim>\<open>int\<close> or \<^verbatim>\<open>float\<close>, and \<^verbatim>\<open>json.dumps\<close> for anything else.
\<close>

definition needs_quoting :: "string \<Rightarrow> bool" where
  "needs_quoting s = (\<exists>c \<in> set [nl, dq, CHR '':'', CHR ''|'', CHR ''['', CHR '']'',
     CHR ''{'', CHR ''}'']. c \<in> set s)"

fun format_value :: "json \<Rightarrow> string" where
  "format_value JNull = ''null''"
| "format_value (JBool b) = lower (str_bool b)"
| "format_value (JStr s) = (if needs_quoting s then json_dumps (JStr s) else s)"
| "format_value (JInt i) = str_int i"
| "format_value (JFloat f) = f"
| "format_value v = json_dumps v"

section \<open>The structural encoder\<close>

definition indent_str :: "nat \<Rightarrow> string" where
  "indent_str indent = concat (replicate indent ''  '')"

text \<open>A key is wrapped in double quotes, unescaped, when it has a space, a colon or a newline.\<close>

definition key_str :: "string \<Rightarrow> string" where
  "key_str key =
     (if CHR '' '' \<in> set key \<or> CHR '':'' \<in> set key \<or> nl \<in> set key
      then dq # key @ [dq] else key)"

text \<open>\<^verbatim>\<open>isinstance(v, (str, int, float, bool, type(None)))\<close>.\<close>

fun is_primitive :: "json \<Rightarrow> bool" where
  "is_primitive (JArr xs) = False"
| "is_primitive (JObj kvs) = False"
| "is_primitive v = True"

text \<open>\<^verbatim>\<open>isinstance(value, (dict, list)) and value\<close>: a collection that is not empty.\<close>

fun nonempty_collection :: "json \<Rightarrow> bool" where
  "nonempty_collection (JArr xs) = (xs \<noteq> [])"
| "nonempty_collection (JObj kvs) = (kvs \<noteq> [])"
| "nonempty_collection v = False"

text \<open>
  The test both table sites make on every element:
  \<^verbatim>\<open>isinstance(item, dict) and len(item) > 0 and all(isinstance(v, ...) for v in item.values())\<close>,
  and the \<^verbatim>\<open>all(... for item in value)\<close> around it, which is true of the empty list.
\<close>

fun row_eligible :: "json \<Rightarrow> bool" where
  "row_eligible (JObj kvs) = (length kvs > 0 \<and> list_all is_primitive (map snd kvs))"
| "row_eligible v = False"

definition all_rows_eligible :: "json list \<Rightarrow> bool" where
  "all_rows_eligible items = list_all row_eligible items"

text \<open>
  The test at a key: \<^verbatim>\<open>isinstance(value, list) and all(... for item in value)\<close>; and the
  elements \<^verbatim>\<open>for item in value\<close> runs over, asked of a list only.
\<close>

fun tabular :: "json \<Rightarrow> bool" where
  "tabular (JArr items) = all_rows_eligible items"
| "tabular v = False"

fun elements :: "json \<Rightarrow> json list" where
  "elements (JArr items) = items"
| "elements v = []"

text \<open>\<^verbatim>\<open>list(item.keys())\<close> and \<^verbatim>\<open>item.get(k, '')\<close>.\<close>

fun keys_of :: "json \<Rightarrow> pyerr + string list" where
  "keys_of (JObj kvs) = Inr (map fst kvs)"
| "keys_of v = Inl AttributeError"

fun get_or_empty :: "json \<Rightarrow> string \<Rightarrow> pyerr + json" where
  "get_or_empty (JObj kvs) k = Inr (case map_of kvs k of Some v \<Rightarrow> v | None \<Rightarrow> JStr [])"
| "get_or_empty v k = Inl AttributeError"

text \<open>
  One cell of a table row: \<^verbatim>\<open>None\<close> is \<^verbatim>\<open>null\<close>, a \<^verbatim>\<open>bool\<close> is lower case, a \<^verbatim>\<open>str\<close>
  with a pipe or a newline is wrapped in double quotes as it is, and \<^verbatim>\<open>str(val)\<close> is
  taken of the result.
\<close>

fun cell :: "json \<Rightarrow> pyerr + string" where
  "cell JNull = Inr ''null''"
| "cell (JBool b) = Inr (lower (str_bool b))"
| "cell (JStr s) = Inr (if CHR ''|'' \<in> set s \<or> nl \<in> set s then dq # s @ [dq] else s)"
| "cell (JInt i) = Inr (str_int i)"
| "cell (JFloat f) = Inr f"
| "cell v = Inl Unmodelled"

definition row :: "string \<Rightarrow> string list \<Rightarrow> json \<Rightarrow> pyerr + string" where
  "row pre keys item =
     bind (traverse (\<lambda>k. bind (get_or_empty item k) cell) keys)
       (\<lambda>row_values. Inr (pre @ join '' | '' row_values))"

text \<open>
  The table, written twice in the source (for a list under a key with the prefix
  \<^verbatim>\<open>indent_str + '  '\<close>, for a bare list with \<^verbatim>\<open>indent_str\<close>) and otherwise the same: under
  \<^verbatim>\<open>if value:\<close>, the header from the first element's keys, then one row per element.
\<close>

definition table :: "string \<Rightarrow> json list \<Rightarrow> pyerr + string list" where
  "table pre value =
     (case value of
        [] \<Rightarrow> Inr []
      | first # _ \<Rightarrow>
          bind (keys_of first) (\<lambda>keys.
          bind (traverse (row pre keys) value) (\<lambda>rows.
          Inr ((pre @ join '' | '' keys) # rows))))"

text \<open>
  \<^verbatim>\<open>json_to_toon\<close>, with its two loops: \<open>dict_lines\<close> is \<^verbatim>\<open>for key, value in data.items()\<close>
  and \<open>list_lines\<close> is \<^verbatim>\<open>for item in data\<close> of the regular list format; each returns the
  lines it appends.
\<close>

fun json_to_toon :: "json \<Rightarrow> nat \<Rightarrow> pyerr + string"
  and dict_lines :: "(string \<times> json) list \<Rightarrow> nat \<Rightarrow> pyerr + string list"
  and list_lines :: "json list \<Rightarrow> nat \<Rightarrow> pyerr + string list" where
  "json_to_toon (JObj data) indent =
     (if data = [] then Inr ''{}''
      else bind (dict_lines data indent) (\<lambda>lines. Inr (join [nl] lines)))"
| "json_to_toon (JArr data) indent =
     (if data = [] then Inr ''[]''
      else if list_all is_primitive data
        then Inr (''['' @ join '', '' (map format_value data) @ '']'')
      else if all_rows_eligible data \<and> data \<noteq> []
        then bind (table (indent_str indent) data) (\<lambda>lines. Inr (join [nl] lines))
      else bind (list_lines data indent) (\<lambda>lines. Inr (join [nl] lines)))"
| "json_to_toon JNull indent = Inr (format_value JNull)"
| "json_to_toon (JBool b) indent = Inr (format_value (JBool b))"
| "json_to_toon (JInt i) indent = Inr (format_value (JInt i))"
| "json_to_toon (JFloat f) indent = Inr (format_value (JFloat f))"
| "json_to_toon (JStr s) indent = Inr (format_value (JStr s))"
| "dict_lines [] indent = Inr []"
| "dict_lines ((key, value) # rest) indent =
     bind
       (if nonempty_collection value then
          (if tabular value
           then bind (table (indent_str indent @ ''  '') (elements value))
                  (\<lambda>t. Inr ((indent_str indent @ key_str key @ '':'') # t))
           else bind (json_to_toon value (indent + 1))
                  (\<lambda>value_str. Inr [indent_str indent @ key_str key @ '':'', value_str]))
        else Inr [indent_str indent @ key_str key @ '': '' @ format_value value])
       (\<lambda>ls. bind (dict_lines rest indent) (\<lambda>rs. Inr (ls @ rs)))"
| "list_lines [] indent = Inr []"
| "list_lines (item # rest) indent =
     bind (json_to_toon item indent) (\<lambda>item_str.
     bind (list_lines rest indent) (\<lambda>rs.
     Inr ((if nonempty_collection item
           then (indent_str indent @ ''-'') #
                map (\<lambda>line. indent_str indent @ ''  '' @ lstrip line)
                  (filter (\<lambda>line. strip line \<noteq> []) (split_on nl item_str))
           else [indent_str indent @ ''- '' @ item_str]) @ rs)))"

section \<open>The line-oriented validator\<close>

text \<open>
  \<^verbatim>\<open>xs[i]\<close> for an index that is not negative; \<open>None\<close> is the \<^verbatim>\<open>IndexError\<close> of an index out
  of range, the one exception an operation of the validator's loop can raise.
\<close>

definition nth_checked :: "'a list \<Rightarrow> nat \<Rightarrow> 'a option" where
  "nth_checked xs i = (if i < length xs then Some (xs ! i) else None)"

text \<open>
  What the loop body decides about one line that is not blank, given \<^verbatim>\<open>stripped\<close> and
  the index \<open>i\<close>: the message it returns with, or \<open>None\<close> when it goes on to the next line.
  The tests are in the source's order: table row, list item, key and value, inline
  array, and everything else accepted. \<^verbatim>\<open>stripped.split(':', 1)[0]\<close> is the text before
  the first colon.
\<close>

definition check_line :: "string \<Rightarrow> nat \<Rightarrow> string option" where
  "check_line stripped i =
     (if contains '' | '' stripped \<and> \<not> startswith stripped ''-'' then
        (let parts = map strip (split_str '' | '' stripped) in
         if parts = [] \<or> \<not> list_all (\<lambda>p. p \<noteq> []) parts
         then Some (''Invalid tabular format at line '' @ str_nat (i + 1) @ '': empty columns'')
         else None)
      else if startswith stripped ''-'' then
        (let content = strip (drop 1 stripped) in
         if content = [] then Some (''Empty list item at line '' @ str_nat (i + 1)) else None)
      else if CHR '':'' \<in> set stripped then
        (let key = strip (takeWhile (\<lambda>c. c \<noteq> CHR '':'') stripped) in
         if key = [] then Some (''Empty key at line '' @ str_nat (i + 1)) else None)
      else if startswith stripped ''['' \<and> endswith stripped '']'' then
        (let content = strip (butlast (drop 1 stripped)) in
         if content \<noteq> [] \<and> \<not> list_all (\<lambda>v. v \<noteq> []) (map strip (split_on CHR '','' content))
         then Some (''Invalid array format at line '' @ str_nat (i + 1) @ '': empty values'')
         else None)
      else None)"

text \<open>
  The \<^verbatim>\<open>while i < len(lines)\<close> loop. After a key with no value the source reads
  \<^verbatim>\<open>lines[i + 1]\<close> under \<^verbatim>\<open>i + 1 < len(lines)\<close> and compares indentations, every branch
  of which ends in \<^verbatim>\<open>pass\<close>: the read is kept, its result is not used.
\<close>

function validate_loop :: "string list \<Rightarrow> nat \<Rightarrow> (bool \<times> string option) option" where
  "validate_loop lines i =
     (if i < length lines then
        Option.bind (nth_checked lines i) (\<lambda>line.
          let stripped = strip line in
          if stripped = [] then validate_loop lines (i + 1)
          else (case check_line stripped i of
                  Some msg \<Rightarrow> Some (False, Some msg)
                | None \<Rightarrow>
                    Option.bind (if \<not> contains '' | '' stripped \<and> \<not> startswith stripped ''-''
                             \<and> CHR '':'' \<in> set stripped
                             \<and> strip (drop 1 (dropWhile (\<lambda>c. c \<noteq> CHR '':'') stripped)) = []
                             \<and> i + 1 < length lines
                          then nth_checked lines (i + 1) else Some [])
                      (\<lambda>next_line. validate_loop lines (i + 1))))
      else Some (True, None))"
  by pat_completeness auto
termination
  by (relation "measure (\<lambda>(lines, i). length lines - i)") auto

text \<open>
  \<^verbatim>\<open>validate_toon\<close>: the text must not be blank; then the loop, inside
  \<^verbatim>\<open>try: ... except Exception as e\<close>, where \<^verbatim>\<open>str(e)\<close> of an \<^verbatim>\<open>IndexError\<close> is
  \<^verbatim>\<open>list index out of range\<close>.
\<close>

definition validate_toon :: "string \<Rightarrow> bool \<times> string option" where
  "validate_toon toon_data =
     (if toon_data = [] \<or> strip toon_data = [] then (False, Some ''TOON data is empty'')
      else (case validate_loop (split_on nl toon_data) 0 of
              Some verdict \<Rightarrow> verdict
            | None \<Rightarrow> (False, Some ''Validation error: list index out of range'')))"

section \<open>The round-trip verifier\<close>

text \<open>Python's truth value of a parsed value.\<close>

fun truthy :: "json \<Rightarrow> bool" where
  "truthy JNull = False"
| "truthy (JBool b) = b"
| "truthy (JInt i) = (i \<noteq> 0)"
| "truthy (JFloat f) = (f \<noteq> ''0.0'' \<and> f \<noteq> ''-0.0'')"
| "truthy (JStr s) = (s \<noteq> [])"
| "truthy (JArr xs) = (xs \<noteq> [])"
| "truthy (JObj kvs) = (kvs \<noteq> [])"

text \<open>
  \<^verbatim>\<open>re.match(r'^\s*([^:]+):', line)\<close> and its \<^verbatim>\<open>group(1)\<close>. The pattern needs a colon with
  at least one character before the first one. The greedy \<^verbatim>\<open>\s*\<close> takes the leading
  white space and the group the rest up to the first colon; when nothing is left for
  the group, \<^verbatim>\<open>\s*\<close> gives back its last character, which the group then matches.
\<close>

definition key_match :: "string \<Rightarrow> string option" where
  "key_match line =
     (if CHR '':'' \<notin> set line then None
      else (let head = takeWhile (\<lambda>c. c \<noteq> CHR '':'') line;
                group1 = dropWhile isspace head
            in if group1 \<noteq> [] then Some group1
               else if head \<noteq> [] then Some [last head]
               else None))"

text \<open>The keys the verifier collects from the text, line by line.\<close>

definition line_key :: "string \<Rightarrow> string option" where
  "line_key line =
     (if CHR '':'' \<in> set line \<and> \<not> startswith (strip line) ''-''
      then map_option (\<lambda>g. strip_chars [dq, CHR 0x27] (strip g)) (key_match line)
      else None)"

definition toon_keys :: "string \<Rightarrow> string set" where
  "toon_keys toon_data = set (List.map_filter line_key (split_on nl toon_data))"

text \<open>\<^verbatim>\<open>verify_toon_roundtrip\<close>.\<close>

definition verify_toon_roundtrip :: "json \<Rightarrow> string \<Rightarrow> bool \<times> string option" where
  "verify_toon_roundtrip json_data toon_data =
     (if truthy json_data \<and> strip toon_data = []
      then (False, Some ''TOON output is empty but input had data'')
      else if (case json_data of
                 JObj kvs \<Rightarrow> card (set (map fst kvs)) > 0 \<and> card (toon_keys toon_data) = 0
               | _ \<Rightarrow> False)
      then (False, Some ''No keys found in TOON output'')
      else (case validate_toon toon_data of
              (is_valid, error) \<Rightarrow> if \<not> is_valid then (False, error) else (True, None)))"

section \<open>Values that keep their indentation\<close>





section \<open>Basic facts\<close>

declare str_nat.simps [simp del]

lemma bind_Inr [simp]: "bind (Inr x) f = f x"
  by (simp add: bind_def)

lemma bind_Inl [simp]: "bind (Inl e) f = Inl e"
  by (simp add: bind_def)

lemma traverse_map:
  "(\<And>x. x \<in> set xs \<Longrightarrow> f x = Inr (g x)) \<Longrightarrow> traverse f xs = Inr (map g xs)"
  by (induction xs) simp_all

lemma cell_primitive: "is_primitive v \<Longrightarrow> \<exists>c. cell v = Inr c"
  by (cases v) simp_all

lemma map_of_snd: "map_of kvs k = Some v \<Longrightarrow> v \<in> snd ` set kvs"
  by (metis map_of_SomeD image_eqI snd_conv)

lemma tabular_elements: "tabular v \<Longrightarrow> all_rows_eligible (elements v)"
  by (cases v) simp_all

lemma split_on_nonempty [simp]: "split_on c s \<noteq> []"
  by (induction s) (auto split: list.splits)

lemma hd_split_on: "hd (split_on c s) = takeWhile (\<lambda>x. x \<noteq> c) s"
  by (induction s) (auto split: list.splits)

lemma split_on_append: "split_on c (a @ c # b) = split_on c a @ split_on c b"
  by (induction a) (auto split: list.splits)

lemma split_on_join:
  "ls \<noteq> [] \<Longrightarrow> split_on c (join [c] ls) = concat (map (split_on c) ls)"
proof (induction ls rule: induct_list012)
  case (3 x y ys)
  then show ?case using split_on_append [of c x "join [c] (y # ys)"] by simp
qed simp_all


lemma hd_in_split_on: "takeWhile (\<lambda>x. x \<noteq> c) s \<in> set (split_on c s)"
  using hd_split_on [of c s] split_on_nonempty [of c s] by (metis hd_in_set)

lemma strip_hd: 
  assumes "lstrip s = x # xs"
  shows "\<exists>ys. strip s = x # ys"
proof -
  have nx: "\<not> isspace x" using assms hd_dropWhile [of isspace s] by (simp add: lstrip_def)
  have "dropWhile isspace (rev xs @ [x]) = dropWhile isspace (rev xs) @ [x]
        \<or> dropWhile isspace (rev xs @ [x]) = [x]"
    using nx by (simp add: dropWhile_append)
  then have "rev (dropWhile isspace (rev xs @ [x])) = x # rev (dropWhile isspace (rev xs))
        \<or> rev (dropWhile isspace (rev xs @ [x])) = [x]"
    by auto
  then have "\<exists>ys. rev (dropWhile isspace (rev xs @ [x])) = x # ys" by blast
  then show ?thesis using assms by (simp add: strip_def rstrip_def)
qed

lemma strip_Nil: "lstrip s = [] \<Longrightarrow> strip s = []"
  by (simp add: strip_def rstrip_def)

lemma startswith_strip: "startswith (strip s) [c] = startswith (lstrip s) [c]"
proof (cases "lstrip s")
  case Nil
  then show ?thesis by (simp add: strip_Nil)
next
  case (Cons x xs)
  then obtain ys where "strip s = x # ys" using strip_hd by blast
  then show ?thesis using Cons by (simp add: startswith_def)
qed

lemma colon_not_space: "\<not> isspace CHR '':''"
  by (simp add: isspace_def)

lemma key_str_nonempty: "k \<noteq> [] \<Longrightarrow> key_str k \<noteq> []"
  by (simp add: key_str_def)

lemma hd_key_str: "k \<noteq> [] \<Longrightarrow> hd (key_str k) \<noteq> CHR '':''"
  by (cases k) (auto simp: key_str_def dq_def)

lemma nl_key_str: "nl \<notin> set k \<Longrightarrow> nl \<notin> set (key_str k)"
  by (auto simp: key_str_def nl_def dq_def)

section \<open>The encoder and the validator raise nothing\<close>

lemma get_cell:
  assumes "row_eligible item"
  shows "\<exists>c. bind (get_or_empty item k) cell = Inr c"
proof -
  from assms obtain kvs where item: "item = JObj kvs"
    and prim: "\<forall>v \<in> snd ` set kvs. is_primitive v"
    by (cases item) (auto simp: list_all_iff)
  show ?thesis
  proof (cases "map_of kvs k")
    case None
    then show ?thesis by (simp add: item)
  next
    case (Some v)
    then have "is_primitive v" using prim map_of_snd by fastforce
    then show ?thesis using Some cell_primitive by (simp add: item)
  qed
qed

lemma row_total:
  assumes "row_eligible item"
  shows "\<exists>r. row pre keys item = Inr r"
proof -
  have "\<And>k. bind (get_or_empty item k) cell = Inr (projr (bind (get_or_empty item k) cell))"
    using get_cell [OF assms] by (metis sum.sel(2))
  then have "traverse (\<lambda>k. bind (get_or_empty item k) cell) keys
      = Inr (map (\<lambda>k. projr (bind (get_or_empty item k) cell)) keys)"
    by (intro traverse_map) simp
  then show ?thesis by (simp add: row_def)
qed

lemma table_total:
  assumes "all_rows_eligible items"
  shows "\<exists>ls. table pre items = Inr ls"
proof (cases items)
  case Nil
  then show ?thesis by (simp add: table_def)
next
  case (Cons first rest)
  with assms have "row_eligible first" by (simp add: all_rows_eligible_def)
  then obtain kvs where first: "first = JObj kvs" by (cases first) auto
  have "\<And>keys item. item \<in> set items \<Longrightarrow> row pre keys item = Inr (projr (row pre keys item))"
    using assms row_total by (metis all_rows_eligible_def list_all_iff sum.sel(2))
  then have "\<And>keys. traverse (row pre keys) items
      = Inr (map (\<lambda>item. projr (row pre keys item)) items)"
    by (intro traverse_map) simp
  then show ?thesis using Cons first by (simp add: table_def)
qed

lemma encoder_total:
  "\<exists>s. json_to_toon v n = Inr s"
  "\<exists>ls. dict_lines kvs n = Inr ls"
  "\<exists>ls. list_lines xs n = Inr ls"
proof (induction v n and kvs n and xs n rule: json_to_toon_dict_lines_list_lines.induct)
  case (1 data indent)
  then show ?case by auto
next
  case (2 data indent)
  then show ?case using table_total [of data "indent_str indent"] by auto
next
  case (9 key "value" rest indent)
  from "9.IH"(2) obtain rs where rs: "dict_lines rest indent = Inr rs" by blast
  show ?case
  proof (cases "nonempty_collection value")
    case False
    then show ?thesis using rs by simp
  next
    case True
    show ?thesis
    proof (cases "tabular value")
      case t: True
      obtain t where "table (indent_str indent @ ''  '') (elements value) = Inr t"
        using table_total [OF tabular_elements [OF t]] by blast
      then show ?thesis using True t rs by simp
    next
      case f: False
      obtain s where "json_to_toon value (indent + 1) = Inr s"
        using "9.IH"(1) [OF True f] by blast
      then show ?thesis using True f rs by simp
    qed
  qed
next
  case (11 item rest indent)
  then show ?case by auto
qed simp_all

lemma validate_loop_step:
  assumes "i < length lines"
  shows "validate_loop lines i =
    (if strip (lines ! i) = [] then validate_loop lines (i + 1)
     else (case check_line (strip (lines ! i)) i of
             Some msg \<Rightarrow> Some (False, Some msg)
           | None \<Rightarrow> validate_loop lines (i + 1)))"
proof -
  have "\<exists>l. (if \<not> contains '' | '' (strip (lines ! i)) \<and> \<not> startswith (strip (lines ! i)) ''-''
            \<and> CHR '':'' \<in> set (strip (lines ! i))
            \<and> strip (drop 1 (dropWhile (\<lambda>c. c \<noteq> CHR '':'') (strip (lines ! i)))) = []
            \<and> i + 1 < length lines
          then nth_checked lines (i + 1) else Some []) = Some l"
    by (simp add: nth_checked_def)
  then obtain l where "(if \<not> contains '' | '' (strip (lines ! i)) \<and> \<not> startswith (strip (lines ! i)) ''-''
            \<and> CHR '':'' \<in> set (strip (lines ! i))
            \<and> strip (drop 1 (dropWhile (\<lambda>c. c \<noteq> CHR '':'') (strip (lines ! i)))) = []
            \<and> i + 1 < length lines
          then nth_checked lines (i + 1) else Some []) = Some l" by blast
  then show ?thesis
    using assms
    by (subst validate_loop.simps)
       (simp add: nth_checked_def Let_def split: option.splits del: validate_loop.simps)
qed

lemma validate_loop_end: "\<not> i < length lines \<Longrightarrow> validate_loop lines i = Some (True, None)"
  by simp

lemma validate_loop_total:
  "\<exists>b m. validate_loop lines i = Some (b, m) \<and> (b \<longleftrightarrow> m = None)"
proof (induction "length lines - i" arbitrary: i)
  case 0
  then show ?case by (auto simp: validate_loop_end)
next
  case (Suc d)
  then have lt: "i < length lines" and "d = length lines - (i + 1)" by auto
  then have "\<exists>b m. validate_loop lines (i + 1) = Some (b, m) \<and> (b \<longleftrightarrow> m = None)"
    using Suc.hyps(1) by blast
  then show ?case
    by (auto simp: validate_loop_step [OF lt] simp del: validate_loop.simps split: option.splits)
qed


section \<open>What the validator rejects\<close>

lemma validate_loop_rejects:
  "validate_loop lines i = Some (False, m) \<Longrightarrow>
     \<exists>j msg. j < length lines \<and> check_line (strip (lines ! j)) j = Some msg \<and> m = Some msg"
proof (induction "length lines - i" arbitrary: i)
  case 0
  then show ?case by (simp add: validate_loop_end)
next
  case (Suc d)
  then have lt: "i < length lines" and d: "d = length lines - (i + 1)" by auto
  show ?case
  proof (cases "strip (lines ! i) \<noteq> [] \<and> check_line (strip (lines ! i)) i \<noteq> None")
    case True
    then obtain msg where msg: "check_line (strip (lines ! i)) i = Some msg" by blast
    then have "m = Some msg"
      using Suc.prems True by (simp add: validate_loop_step [OF lt] del: validate_loop.simps)
    then show ?thesis using msg lt by blast
  next
    case False
    then have "validate_loop lines (i + 1) = Some (False, m)"
      using Suc.prems 
      by (auto simp: validate_loop_step [OF lt] simp del: validate_loop.simps split: if_splits)
    then show ?thesis using Suc.hyps(1) [OF d] by blast
  qed
qed

lemma check_line_messages:
  "check_line s i = Some msg \<Longrightarrow>
     msg = ''Invalid tabular format at line '' @ str_nat (i + 1) @ '': empty columns''
   \<or> msg = ''Empty list item at line '' @ str_nat (i + 1)
   \<or> msg = ''Empty key at line '' @ str_nat (i + 1)
   \<or> msg = ''Invalid array format at line '' @ str_nat (i + 1) @ '': empty values''"
  unfolding check_line_def Let_def
  by (simp split: if_splits)

lemma validate_toon_rejects:
  assumes "validate_toon t = (False, m)"
  shows "(strip t = [] \<and> m = Some ''TOON data is empty'') \<or>
    (strip t \<noteq> [] \<and> (\<exists>n. m = Some (''Invalid tabular format at line '' @ str_nat n @ '': empty columns'')
       \<or> m = Some (''Empty list item at line '' @ str_nat n)
       \<or> m = Some (''Empty key at line '' @ str_nat n)
       \<or> m = Some (''Invalid array format at line '' @ str_nat n @ '': empty values'')))"
proof (cases "t = [] \<or> strip t = []")
  case True
  then have "strip t = []" by (auto simp: strip_def rstrip_def lstrip_def)
  then show ?thesis using assms by (auto simp: validate_toon_def)
next
  case False
  obtain b m' where bm: "validate_loop (split_on nl t) 0 = Some (b, m')"
    using validate_loop_total by blast
  then have "b = False" "m' = m" using assms False by (auto simp: validate_toon_def)
  then obtain j msg where "check_line (strip (split_on nl t ! j)) j = Some msg" "m = Some msg"
    using validate_loop_rejects bm by blast
  then show ?thesis using check_line_messages [of _ j msg] False by blast
qed

section \<open>The keys the verifier finds\<close>

lemma line_key_of_key:
  assumes "k \<noteq> []" and "\<not> startswith (lstrip (key_str k)) ''-''"
  shows "\<exists>g. line_key (key_str k @ '':'' @ r) = Some g"
proof -
  let ?L = "key_str k @ '':'' @ r"
  have colon: "CHR '':'' \<in> set ?L" by simp
  have ks: "key_str k \<noteq> []" "hd (key_str k) \<noteq> CHR '':''"
    using assms(1) key_str_nonempty hd_key_str by auto
  then have "takeWhile (\<lambda>c. c \<noteq> CHR '':'') ?L \<noteq> []"
    by (cases "key_str k") auto
  then have km: "\<exists>g. key_match ?L = Some g"
    by (simp add: key_match_def Let_def)
  have "lstrip ?L = (if \<forall>c \<in> set (key_str k). isspace c then '':'' @ r else lstrip (key_str k) @ '':'' @ r)"
    using colon_not_space by (simp add: lstrip_def dropWhile_append)
  moreover have "\<not> (\<forall>c \<in> set (key_str k). isspace c) \<Longrightarrow> lstrip (key_str k) \<noteq> []"
    by (simp add: lstrip_def)
  ultimately have "\<not> startswith (lstrip ?L) ''-''"
    using assms(2) by (cases "lstrip (key_str k)") (auto simp: startswith_def)
  then have "\<not> startswith (strip ?L) ''-''" by (simp add: startswith_strip)
  then show ?thesis using km colon by (auto simp: line_key_def)
qed

lemma dict_lines_entry:
  "dict_lines data n = Inr lines \<Longrightarrow> (k, x) \<in> set data \<Longrightarrow>
    \<exists>r. (indent_str n @ key_str k @ '':'' @ r) \<in> set lines"
proof (induction data arbitrary: lines)
  case Nil
  then show ?case by simp
next
  case (Cons e rest)
  obtain key v where e: "e = (key, v)" by (cases e)
  obtain rs where rs: "dict_lines rest n = Inr rs" using encoder_total(2) by blast
  obtain t where t: "table (indent_str n @ ''  '') (elements v) = Inr t \<or> \<not> tabular v" 
    using table_total [OF tabular_elements] by blast
  obtain s where s: "json_to_toon v (n + 1) = Inr s" using encoder_total(1) by blast
  have first: "\<exists>r ls. lines = (indent_str n @ key_str key @ '':'' @ r) # ls @ rs"
    using Cons.prems(1) t s rs unfolding e by (auto split: if_splits)
  show ?case
  proof (cases "(k, x) = e")
    case True
    then show ?thesis using first e by auto
  next
    case False
    then have "(k, x) \<in> set rest" using Cons.prems(2) by simp
    then obtain r where "(indent_str n @ key_str k @ '':'' @ r) \<in> set rs"
      using Cons.IH [OF rs] by blast
    then show ?thesis using first by auto
  qed
qed

lemma toon_keys_recovered:
  assumes "(k, x) \<in> set data" "k \<noteq> []" "nl \<notin> set k" "\<not> startswith (lstrip (key_str k)) ''-''"
    and "json_to_toon (JObj data) 0 = Inr text"
  shows "toon_keys text \<noteq> {}"
proof -
  have ne: "data \<noteq> []" using assms(1) by auto
  obtain lines where lines: "dict_lines data 0 = Inr lines" using encoder_total(2) by blast
  then have tx: "text = join [nl] lines" using assms(5) ne by simp
  obtain r where r: "(key_str k @ '':'' @ r) \<in> set lines"
    using dict_lines_entry [OF lines assms(1)] by (auto simp: indent_str_def)
  then have lne: "lines \<noteq> []" by auto
  let ?e = "key_str k @ '':'' @ r"
  have "takeWhile (\<lambda>c. c \<noteq> nl) ?e = key_str k @ '':'' @ takeWhile (\<lambda>c. c \<noteq> nl) r"
    using nl_key_str [OF assms(3)] by (simp add: takeWhile_append nl_def)
  then have "(key_str k @ '':'' @ takeWhile (\<lambda>c. c \<noteq> nl) r) \<in> set (split_on nl ?e)"
    using hd_in_split_on [of nl ?e] by simp
  then have mem: "(key_str k @ '':'' @ takeWhile (\<lambda>c. c \<noteq> nl) r) \<in> set (split_on nl text)"
    using r by (auto simp: tx split_on_join [OF lne])
  obtain g where "line_key (key_str k @ '':'' @ takeWhile (\<lambda>c. c \<noteq> nl) r) = Some g"
    using line_key_of_key [OF assms(2,4)] by blast
  then have "g \<in> toon_keys text"
    using mem by (force simp: toon_keys_def map_filter_def)
  then show ?thesis by auto
qed

lemma verify_not_no_keys:
  assumes "toon_keys toon \<noteq> {}"
  shows "snd (verify_toon_roundtrip v toon) \<noteq> Some ''No keys found in TOON output''"
proof -
  obtain b m where bm: "validate_toon toon = (b, m)" by (cases "validate_toon toon")
  have fin: "finite (toon_keys toon)" by (simp add: toon_keys_def)
  have "b = False \<Longrightarrow> m \<noteq> Some ''No keys found in TOON output''"
    using validate_toon_rejects [of toon m] bm by auto
  then show ?thesis using assms fin bm 
    by (auto simp: verify_toon_roundtrip_def split: json.splits)
qed

section \<open>What the JSON encoder writes\<close>







lemma escape_char_nonempty: "escape_char c \<noteq> []"
  by (simp add: escape_char_def)








section \<open>What a table holds\<close>

lemma traverse_all2:
  "(\<And>x. x \<in> set xs \<Longrightarrow> \<exists>y. f x = Inr y \<and> P x y) \<Longrightarrow>
     \<exists>ys. traverse f xs = Inr ys \<and> list_all2 P xs ys"
proof (induction xs)
  case Nil
  then show ?case by simp
next
  case (Cons x xs)
  obtain y where y: "f x = Inr y" "P x y" using Cons.prems by auto
  obtain ys where ys: "traverse f xs = Inr ys" "list_all2 P xs ys"
    using Cons.IH Cons.prems by auto
  show ?case using y ys by simp
qed

lemma get_cell_spec:
  assumes "list_all is_primitive (map snd kvs)"
  shows "\<exists>c. bind (get_or_empty (JObj kvs) k) cell = Inr c
    \<and> (case map_of kvs k of None \<Rightarrow> c = [] | Some v \<Rightarrow> cell v = Inr c)"
proof (cases "map_of kvs k")
  case None
  then show ?thesis by simp
next
  case (Some v)
  then have "is_primitive v" using assms map_of_snd by (fastforce simp: list_all_iff)
  then show ?thesis using Some cell_primitive by simp
qed

lemma row_spec:
  assumes "list_all is_primitive (map snd kvs)"
  shows "\<exists>cells. row pre keys (JObj kvs) = Inr (pre @ join '' | '' cells)
    \<and> list_all2 (\<lambda>k c. case map_of kvs k of None \<Rightarrow> c = [] | Some v \<Rightarrow> cell v = Inr c)
         keys cells"
proof -
  obtain cells where "traverse (\<lambda>k. bind (get_or_empty (JObj kvs) k) cell) keys = Inr cells"
    "list_all2 (\<lambda>k c. case map_of kvs k of None \<Rightarrow> c = [] | Some v \<Rightarrow> cell v = Inr c) keys cells"
    using traverse_all2 [of keys "\<lambda>k. bind (get_or_empty (JObj kvs) k) cell"
        "\<lambda>k c. case map_of kvs k of None \<Rightarrow> c = [] | Some v \<Rightarrow> cell v = Inr c"]
      get_cell_spec [OF assms] by blast
  then show ?thesis by (auto simp: row_def)
qed

lemma row_eligible_iff:
  "row_eligible item \<longleftrightarrow>
     (\<exists>kvs. item = JObj kvs \<and> kvs \<noteq> [] \<and> (\<forall>v \<in> snd ` set kvs. is_primitive v))"
  by (cases item) (auto simp: list_all_iff)

lemma is_primitive_iff:
  "is_primitive v \<longleftrightarrow> v \<in> {JNull} \<union> range JBool \<union> range JInt \<union> range JFloat \<union> range JStr"
  by (cases v) auto

lemma table_spec:
  assumes "all_rows_eligible (JObj kvs0 # rest)"
  shows "\<exists>rows. table pre (JObj kvs0 # rest) = Inr ((pre @ join '' | '' (map fst kvs0)) # rows)
    \<and> list_all2 (\<lambda>item r. \<exists>kvs cells. item = JObj kvs \<and> r = pre @ join '' | '' cells
          \<and> list_all2 (\<lambda>k c. case map_of kvs k of None \<Rightarrow> c = [] | Some v \<Rightarrow> cell v = Inr c)
               (map fst kvs0) cells)
        (JObj kvs0 # rest) rows"
proof -
  let ?items = "JObj kvs0 # rest"
  let ?P = "\<lambda>item r. \<exists>kvs cells. item = JObj kvs \<and> r = pre @ join '' | '' cells
          \<and> list_all2 (\<lambda>k c. case map_of kvs k of None \<Rightarrow> c = [] | Some v \<Rightarrow> cell v = Inr c)
               (map fst kvs0) cells"
  have "\<And>item. item \<in> set ?items \<Longrightarrow> \<exists>r. row pre (map fst kvs0) item = Inr r \<and> ?P item r"
  proof -
    fix item assume "item \<in> set ?items"
    then have "row_eligible item"
      using assms unfolding all_rows_eligible_def list_all_iff by blast
    then obtain kvs where kvs: "item = JObj kvs" "list_all is_primitive (map snd kvs)"
      by (cases item) auto
    show "\<exists>r. row pre (map fst kvs0) item = Inr r \<and> ?P item r"
      using row_spec [OF kvs(2), of pre "map fst kvs0"] kvs(1) by blast
  qed
  then obtain rows where "traverse (row pre (map fst kvs0)) ?items = Inr rows"
    "list_all2 ?P ?items rows"
    using traverse_all2 [of ?items "row pre (map fst kvs0)" ?P] by blast
  then show ?thesis by (auto simp: table_def)
qed

lemma eligible_not_primitive:
  "items \<noteq> [] \<Longrightarrow> all_rows_eligible items \<Longrightarrow> \<not> list_all is_primitive items"
proof -
  assume "items \<noteq> []" "all_rows_eligible items"
  then obtain first rest where "items = first # rest" "row_eligible first"
    by (cases items) (auto simp: all_rows_eligible_def)
  then show ?thesis by (cases first) auto
qed

lemma all_rows_eligible_iff:
  "all_rows_eligible items \<longleftrightarrow>
     (\<forall>item \<in> set items. \<exists>kvs. item = JObj kvs \<and> kvs \<noteq> []
        \<and> (\<forall>v \<in> snd ` set kvs.
              v \<in> {JNull} \<union> range JBool \<union> range JInt \<union> range JFloat \<union> range JStr))"
  unfolding all_rows_eligible_def list_all_iff row_eligible_iff is_primitive_iff ..

section \<open>The lines of a list\<close>



section \<open>Indentation\<close>




















text \<open>
  An array of primitives under a key, which the predicate above leaves out, is written
  inline with no indentation: \<^verbatim>\<open>{"a": [1, 2]}\<close> gives \<^verbatim>\<open>[1, 2]\<close> below \<^verbatim>\<open>a:\<close>, where a table and
  a nested object under a key are indented by two spaces.
\<close>

lemma inline_array_under_key:
  "json_to_toon (JObj [(''a'', JArr [JInt 1, JInt 2])]) 0 = Inr ''a:\<newline>[1, 2]''
   \<and> split_on nl ''a:\<newline>[1, 2]'' = [''a:'', ''[1, 2]'']
   \<and> json_to_toon (JObj [(''a'', JArr [JObj [(''x'', JInt 1)]])]) 0 = Inr ''a:\<newline>  x\<newline>  1''
   \<and> json_to_toon (JObj [(''a'', JObj [(''x'', JInt 1)])]) 0 = Inr ''a:\<newline>  x: 1''"
  by code_simp

section \<open>The claims\<close>


text \<open>
  Claim C9, as the code has it: the validator accepts the line \<^verbatim>\<open>a | | b\<close>, where
  \<^verbatim>\<open>split(' | ')\<close> finds one separator and the parts \<^verbatim>\<open>a\<close> and \<^verbatim>\<open>| b\<close>.
\<close>

theorem validate_single_space_pipes_accepted:
  "validate_toon ''a | | b'' = (True, None)"
  by code_simp

text \<open>
  Claim C9, amended: the validator rejects the line \<^verbatim>\<open>a |  | b\<close>, which has two spaces
  between the pipes and so an empty middle column, and a bare \<^verbatim>\<open>-\<close>; it accepts the lines
  \<^verbatim>\<open>- item\<close>, \<^verbatim>\<open>key: value\<close>, \<^verbatim>\<open>[1, 2]\<close>, \<^verbatim>\<open>{}\<close> and \<^verbatim>\<open>[]\<close>.
\<close>

theorem validate_toon_examples:
  "validate_toon ''a |  | b'' = (False, Some ''Invalid tabular format at line 1: empty columns'')
   \<and> validate_toon ''-'' = (False, Some ''Empty list item at line 1'')
   \<and> validate_toon ''- item'' = (True, None)
   \<and> validate_toon ''key: value'' = (True, None)
   \<and> validate_toon ''[1, 2]'' = (True, None)
   \<and> validate_toon ''{}'' = (True, None)
   \<and> validate_toon ''[]'' = (True, None)"
  by code_simp

text \<open>
  Claim C10: the verifier rejects the encoder's own output on two values. The array
  \<^verbatim>\<open>[{"a": [1]}]\<close>, whose element is no table row, is encoded with a bare \<^verbatim>\<open>-\<close> line, which
  the validator rejects as an empty list item. The table of
  \<^verbatim>\<open>[{"a": 1, "b": 2, "c": 3}, {"a": 4, "c": 6}]\<close> has the row \<^verbatim>\<open>4 |  | 6\<close> for the element
  without \<^verbatim>\<open>b\<close>, which the validator rejects for its empty column.
\<close>

theorem pipeline_rejects_own_output:
  "json_to_toon (JArr [JObj [(''a'', JArr [JInt 1])]]) 0 = Inr ''-\<newline>  a:\<newline>  [1]''
   \<and> verify_toon_roundtrip (JArr [JObj [(''a'', JArr [JInt 1])]]) ''-\<newline>  a:\<newline>  [1]''
       = (False, Some ''Empty list item at line 1'')
   \<and> json_to_toon (JArr [JObj [(''a'', JInt 1), (''b'', JInt 2), (''c'', JInt 3)],
         JObj [(''a'', JInt 4), (''c'', JInt 6)]]) 0
       = Inr ''a | b | c\<newline>1 | 2 | 3\<newline>4 |  | 6''
   \<and> verify_toon_roundtrip (JArr [JObj [(''a'', JInt 1), (''b'', JInt 2), (''c'', JInt 3)],
         JObj [(''a'', JInt 4), (''c'', JInt 6)]]) ''a | b | c\<newline>1 | 2 | 3\<newline>4 |  | 6''
       = (False, Some ''Invalid tabular format at line 3: empty columns'')"
  by code_simp

text \<open>
  Claim C1, as the code has it: the verifier skips every line that starts with \<^verbatim>\<open>-\<close>, so
  for the object \<^verbatim>\<open>{"-a": 1}\<close>, encoded as \<^verbatim>\<open>-a: 1\<close>, it finds no key and fails with
  \<^verbatim>\<open>No keys found in TOON output\<close>.
\<close>

theorem no_keys_found_for_dash_key:
  "json_to_toon (JObj [(''-a'', JInt 1)]) 0 = Inr ''-a: 1''
   \<and> verify_toon_roundtrip (JObj [(''-a'', JInt 1)]) ''-a: 1''
       = (False, Some ''No keys found in TOON output'')"
  by code_simp

text \<open>
  Claim C1, amended: for every object with a key that is not empty, has no newline and,
  as the encoder writes it (in double quotes when it has a space or a colon), does not
  start with \<^verbatim>\<open>-\<close> after leading white space, the verifier finds at least one key in the
  encoder's output and does not fail with \<^verbatim>\<open>No keys found in TOON output\<close>. The object
  \<^verbatim>\<open>{"a": 1, "b": 2}\<close> is encoded as the two lines \<^verbatim>\<open>a: 1\<close> and \<^verbatim>\<open>b: 2\<close>, and the verifier
  returns valid for it.
\<close>

theorem verify_recovers_key:
  assumes "(k, x) \<in> set data" and "k \<noteq> []" and "nl \<notin> set k"
    and "\<not> startswith (lstrip (key_str k)) ''-''"
  shows "(\<exists>toon. json_to_toon (JObj data) 0 = Inr toon \<and> toon_keys toon \<noteq> {}
           \<and> snd (verify_toon_roundtrip (JObj data) toon) \<noteq> Some ''No keys found in TOON output'')
     \<and> json_to_toon (JObj [(''a'', JInt 1), (''b'', JInt 2)]) 0 = Inr ''a: 1\<newline>b: 2''
     \<and> split_on nl ''a: 1\<newline>b: 2'' = [''a: 1'', ''b: 2'']
     \<and> verify_toon_roundtrip (JObj [(''a'', JInt 1), (''b'', JInt 2)]) ''a: 1\<newline>b: 2'' = (True, None)"
proof -
  obtain toon where toon: "json_to_toon (JObj data) 0 = Inr toon"
    using encoder_total(1) by blast
  have keys: "toon_keys toon \<noteq> {}"
    using toon_keys_recovered [OF assms toon] .
  have "snd (verify_toon_roundtrip (JObj data) toon) \<noteq> Some ''No keys found in TOON output''"
    using verify_not_no_keys [OF keys] .
  then have general: "\<exists>toon. json_to_toon (JObj data) 0 = Inr toon \<and> toon_keys toon \<noteq> {}
      \<and> snd (verify_toon_roundtrip (JObj data) toon) \<noteq> Some ''No keys found in TOON output''"
    using toon keys by blast
  have "json_to_toon (JObj [(''a'', JInt 1), (''b'', JInt 2)]) 0 = Inr ''a: 1\<newline>b: 2''
     \<and> split_on nl ''a: 1\<newline>b: 2'' = [''a: 1'', ''b: 2'']
     \<and> verify_toon_roundtrip (JObj [(''a'', JInt 1), (''b'', JInt 2)]) ''a: 1\<newline>b: 2'' = (True, None)"
    by code_simp
  then show ?thesis using general by blast
qed

theorem verify_recovers_key_witness:
  "(''a'', JInt 1) \<in> set [(''a'', JInt 1), (''b'', JInt 2)]
   \<and> ''a'' \<noteq> []
   \<and> nl \<notin> set ''a''
   \<and> \<not> startswith (lstrip (key_str ''a'')) ''-''
   \<and> (\<exists>toon. json_to_toon (JObj [(''a'', JInt 1), (''b'', JInt 2)]) 0 = Inr toon
        \<and> toon_keys toon \<noteq> {}
        \<and> snd (verify_toon_roundtrip (JObj [(''a'', JInt 1), (''b'', JInt 2)]) toon)
            \<noteq> Some ''No keys found in TOON output'')"
proof -
  have h1: "(''a'', JInt 1) \<in> set [(''a'', JInt 1), (''b'', JInt 2)]" by simp
  have h2: "''a'' \<noteq> []" by simp
  have h3: "nl \<notin> set ''a''" by (simp add: nl_def)
  have h4: "\<not> startswith (lstrip (key_str ''a'')) ''-''" by code_simp
  from verify_recovers_key [OF h1 h2 h3 h4] h1 h2 h3 h4 show ?thesis by blast
qed




text \<open>
  Claim C6, at the input \<^verbatim>\<open>[{"a": "p|\"q"}]\<close>: the table cell is the string between two
  double quotes with nothing escaped, where \<^verbatim>\<open>format_value\<close> and \<^verbatim>\<open>json.dumps\<close> write the
  inner quote with a backslash.
\<close>

theorem table_cell_quoted_without_escapes:
  "json_to_toon (JArr [JObj [(''a'', JStr (''p|'' @ [dq] @ ''q''))]]) 0
     = Inr (''a'' @ [nl] @ [dq] @ ''p|'' @ [dq] @ ''q'' @ [dq])
   \<and> format_value (JStr (''p|'' @ [dq] @ ''q'')) = [dq] @ ''p|'' @ [bs, dq] @ ''q'' @ [dq]
   \<and> json_dumps (JStr (''p|'' @ [dq] @ ''q'')) = [dq] @ ''p|'' @ [bs, dq] @ ''q'' @ [dq]"
  by code_simp






text \<open>
  Claim C4: an array is found fit for a table exactly when it is not empty and every
  element is an object with at least one key whose values are all \<^verbatim>\<open>None\<close>, \<^verbatim>\<open>bool\<close>,
  number or string (the source asks \<^verbatim>\<open>all(...)\<close> of arrays that are not empty only). When
  it is, the array is written as a table, as a bare array and under a key alike: the
  header joins the keys of the first element in their order, and there is one row per
  element in order, each with one cell per key of the first element, the cell being
  empty where the element has no such key; a key the first element does not have gives
  no cell. When it is not, no table is written: the array is \<^verbatim>\<open>[]\<close>, inline or one item
  per line.
\<close>

theorem tabular_detection_and_table:
  "((items \<noteq> [] \<and> all_rows_eligible items) \<longleftrightarrow>
      (items \<noteq> [] \<and> (\<forall>item \<in> set items. \<exists>kvs. item = JObj kvs \<and> kvs \<noteq> []
         \<and> (\<forall>v \<in> snd ` set kvs.
               v \<in> {JNull} \<union> range JBool \<union> range JInt \<union> range JFloat \<union> range JStr))))
   \<and> (items \<noteq> [] \<and> all_rows_eligible items \<longrightarrow>
        (\<exists>kvs0 rest. items = JObj kvs0 # rest
           \<and> (\<forall>pre. \<exists>rows.
                 table pre items = Inr ((pre @ join '' | '' (map fst kvs0)) # rows)
                 \<and> list_all2
                     (\<lambda>item r. \<exists>kvs cells. item = JObj kvs \<and> r = pre @ join '' | '' cells
                        \<and> list_all2
                            (\<lambda>k c. case map_of kvs k of None \<Rightarrow> c = [] | Some v \<Rightarrow> cell v = Inr c)
                            (map fst kvs0) cells)
                     items rows))
        \<and> json_to_toon (JArr items) n
            = bind (table (indent_str n) items) (\<lambda>lines. Inr (join [nl] lines))
        \<and> dict_lines ((key, JArr items) # more) n
            = bind (table (indent_str n @ ''  '') items) (\<lambda>t.
              bind (dict_lines more n) (\<lambda>rs.
              Inr (((indent_str n @ key_str key @ '':'') # t) @ rs))))
   \<and> (\<not> (items \<noteq> [] \<and> all_rows_eligible items) \<longrightarrow>
        json_to_toon (JArr items) n
            = (if items = [] then Inr ''[]''
               else if list_all is_primitive items
               then Inr (''['' @ join '', '' (map format_value items) @ '']'')
               else bind (list_lines items n) (\<lambda>lines. Inr (join [nl] lines)))
        \<and> dict_lines ((key, JArr items) # more) n
            = (if items = []
               then bind (dict_lines more n) (\<lambda>rs.
                    Inr ([indent_str n @ key_str key @ '': []''] @ rs))
               else bind (json_to_toon (JArr items) (n + 1)) (\<lambda>value_str.
                    bind (dict_lines more n) (\<lambda>rs.
                    Inr ([indent_str n @ key_str key @ '':'', value_str] @ rs)))))"
proof -
  have pos: "items \<noteq> [] \<and> all_rows_eligible items \<longrightarrow>
        (\<exists>kvs0 rest. items = JObj kvs0 # rest
           \<and> (\<forall>pre. \<exists>rows.
                 table pre items = Inr ((pre @ join '' | '' (map fst kvs0)) # rows)
                 \<and> list_all2
                     (\<lambda>item r. \<exists>kvs cells. item = JObj kvs \<and> r = pre @ join '' | '' cells
                        \<and> list_all2
                            (\<lambda>k c. case map_of kvs k of None \<Rightarrow> c = [] | Some v \<Rightarrow> cell v = Inr c)
                            (map fst kvs0) cells)
                     items rows))
        \<and> json_to_toon (JArr items) n
            = bind (table (indent_str n) items) (\<lambda>lines. Inr (join [nl] lines))
        \<and> dict_lines ((key, JArr items) # more) n
            = bind (table (indent_str n @ ''  '') items) (\<lambda>t.
              bind (dict_lines more n) (\<lambda>rs.
              Inr (((indent_str n @ key_str key @ '':'') # t) @ rs)))"
  proof
    assume a: "items \<noteq> [] \<and> all_rows_eligible items"
    then obtain first rest where items: "items = first # rest" and "row_eligible first"
      by (cases items) (auto simp: all_rows_eligible_def)
    then obtain kvs0 where first: "first = JObj kvs0" by (cases first) auto
    have el: "all_rows_eligible (JObj kvs0 # rest)" using a items first by simp
    have np: "\<not> list_all is_primitive items" using a eligible_not_primitive by blast
    have "json_to_toon (JArr items) n
            = bind (table (indent_str n) items) (\<lambda>lines. Inr (join [nl] lines))"
      using a np by simp
    moreover have "dict_lines ((key, JArr items) # more) n
            = bind (table (indent_str n @ ''  '') items) (\<lambda>t.
              bind (dict_lines more n) (\<lambda>rs.
              Inr (((indent_str n @ key_str key @ '':'') # t) @ rs)))"
      using a by (cases "table (indent_str n @ ''  '') items") simp_all
    ultimately show "(\<exists>kvs0 rest. items = JObj kvs0 # rest
           \<and> (\<forall>pre. \<exists>rows.
                 table pre items = Inr ((pre @ join '' | '' (map fst kvs0)) # rows)
                 \<and> list_all2
                     (\<lambda>item r. \<exists>kvs cells. item = JObj kvs \<and> r = pre @ join '' | '' cells
                        \<and> list_all2
                            (\<lambda>k c. case map_of kvs k of None \<Rightarrow> c = [] | Some v \<Rightarrow> cell v = Inr c)
                            (map fst kvs0) cells)
                     items rows))
        \<and> json_to_toon (JArr items) n
            = bind (table (indent_str n) items) (\<lambda>lines. Inr (join [nl] lines))
        \<and> dict_lines ((key, JArr items) # more) n
            = bind (table (indent_str n @ ''  '') items) (\<lambda>t.
              bind (dict_lines more n) (\<lambda>rs.
              Inr (((indent_str n @ key_str key @ '':'') # t) @ rs)))"
      using table_spec [OF el] items first by blast
  qed
  have neg: "\<not> (items \<noteq> [] \<and> all_rows_eligible items) \<longrightarrow>
        json_to_toon (JArr items) n
            = (if items = [] then Inr ''[]''
               else if list_all is_primitive items
               then Inr (''['' @ join '', '' (map format_value items) @ '']'')
               else bind (list_lines items n) (\<lambda>lines. Inr (join [nl] lines)))
        \<and> dict_lines ((key, JArr items) # more) n
            = (if items = []
               then bind (dict_lines more n) (\<lambda>rs.
                    Inr ([indent_str n @ key_str key @ '': []''] @ rs))
               else bind (json_to_toon (JArr items) (n + 1)) (\<lambda>value_str.
                    bind (dict_lines more n) (\<lambda>rs.
                    Inr ([indent_str n @ key_str key @ '':'', value_str] @ rs))))"
  proof
    assume a: "\<not> (items \<noteq> [] \<and> all_rows_eligible items)"
    have d: "dict_lines ((key, JArr items) # more) n
            = (if items = []
               then bind (dict_lines more n) (\<lambda>rs.
                    Inr ([indent_str n @ key_str key @ '': []''] @ rs))
               else bind (json_to_toon (JArr items) (n + 1)) (\<lambda>value_str.
                    bind (dict_lines more n) (\<lambda>rs.
                    Inr ([indent_str n @ key_str key @ '':'', value_str] @ rs))))"
    proof (cases "items = []")
      case True
      then show ?thesis by simp
    next
      case False
      then have "\<not> all_rows_eligible items" using a by simp
      then show ?thesis
        using False
        by (cases "json_to_toon (JArr items) (n + 1)") (simp_all del: json_to_toon.simps)
    qed
    have "json_to_toon (JArr items) n
            = (if items = [] then Inr ''[]''
               else if list_all is_primitive items
               then Inr (''['' @ join '', '' (map format_value items) @ '']'')
               else bind (list_lines items n) (\<lambda>lines. Inr (join [nl] lines)))"
      using a by auto
    then show "json_to_toon (JArr items) n
            = (if items = [] then Inr ''[]''
               else if list_all is_primitive items
               then Inr (''['' @ join '', '' (map format_value items) @ '']'')
               else bind (list_lines items n) (\<lambda>lines. Inr (join [nl] lines)))
        \<and> dict_lines ((key, JArr items) # more) n
            = (if items = []
               then bind (dict_lines more n) (\<lambda>rs.
                    Inr ([indent_str n @ key_str key @ '': []''] @ rs))
               else bind (json_to_toon (JArr items) (n + 1)) (\<lambda>value_str.
                    bind (dict_lines more n) (\<lambda>rs.
                    Inr ([indent_str n @ key_str key @ '':'', value_str] @ rs))))"
      using d by blast
  qed
  show ?thesis using all_rows_eligible_iff [of items] pos neg by blast
qed

theorem tabular_detection_and_table_witness:
  "[JObj [(''a'', JInt 1), (''b'', JInt 2)], JObj [(''a'', JInt 3), (''b'', JInt 4)]] \<noteq> []
   \<and> all_rows_eligible [JObj [(''a'', JInt 1), (''b'', JInt 2)], JObj [(''a'', JInt 3), (''b'', JInt 4)]]
   \<and> json_to_toon (JArr [JObj [(''a'', JInt 1), (''b'', JInt 2)],
        JObj [(''a'', JInt 3), (''b'', JInt 4)]]) 0 = Inr ''a | b\<newline>1 | 2\<newline>3 | 4''
   \<and> [JObj [(''a'', JArr [JInt 1])]] \<noteq> []
   \<and> \<not> all_rows_eligible [JObj [(''a'', JArr [JInt 1])]]
   \<and> json_to_toon (JArr [JObj [(''a'', JArr [JInt 1])]]) 0 = Inr ''-\<newline>  a:\<newline>  [1]''"
proof -
  let ?t = "[JObj [(''a'', JInt 1), (''b'', JInt 2)], JObj [(''a'', JInt 3), (''b'', JInt 4)]]"
  let ?u = "[JObj [(''a'', JArr [JInt 1])]]"
  have h1: "?t \<noteq> [] \<and> all_rows_eligible ?t" by code_simp
  have h2: "?u \<noteq> [] \<and> \<not> all_rows_eligible ?u" by code_simp
  have e1: "bind (table (indent_str 0) ?t) (\<lambda>lines. Inr (join [nl] lines))
      = Inr ''a | b\<newline>1 | 2\<newline>3 | 4''" by code_simp
  have h3: "\<not> (?u \<noteq> [] \<and> all_rows_eligible ?u)" using h2 by blast
  have e2: "(if ?u = [] then Inr ''[]''
             else if list_all is_primitive ?u
               then Inr (''['' @ join '', '' (map format_value ?u) @ '']'')
               else bind (list_lines ?u 0) (\<lambda>lines. Inr (join [nl] lines)))
      = Inr ''-\<newline>  a:\<newline>  [1]''" by code_simp
  from tabular_detection_and_table [of ?t 0] h1
  have "json_to_toon (JArr ?t) 0 = bind (table (indent_str 0) ?t) (\<lambda>lines. Inr (join [nl] lines))"
    by blast
  moreover from tabular_detection_and_table [of ?u 0] h3
  have "json_to_toon (JArr ?u) 0 = (if ?u = [] then Inr ''[]''
             else if list_all is_primitive ?u
               then Inr (''['' @ join '', '' (map format_value ?u) @ '']'')
               else bind (list_lines ?u 0) (\<lambda>lines. Inr (join [nl] lines)))"
    by blast
  ultimately show ?thesis using h1 h2 e1 e2 by simp
qed




end
